theory Spec2Isabelle
  imports Main "HOL-Library.Word"
begin

section \<open>The resilience decorators of stability\_patterns.go\<close>

text \<open>
  The file stability\_patterns.go defines three decorators over functions of type
  \<^verbatim>\<open>func(context.Context) (string, error)\<close>: \<^verbatim>\<open>Breaker\<close>, \<^verbatim>\<open>Debounce\<close> and
  \<^verbatim>\<open>Retry\<close>. Each returns a closure; the variables the closure captures are made an
  explicit state record here, passed into every call and returned updated.

  Calls are modelled one at a time: the mutexes of the source are not modelled, and
  nothing is said about interleavings of concurrent calls.
\<close>

subsection \<open>Time, integers, errors, contexts and the world\<close>

text \<open>
  \<^verbatim>\<open>time.Duration\<close> is an \<^verbatim>\<open>int64\<close> count of nanoseconds, with Go's wrap-around
  arithmetic. Go's \<^verbatim>\<open>int\<close> and \<^verbatim>\<open>uint\<close> are taken at their 64-bit width; the
  conversion \<^verbatim>\<open>int(failureThreshold)\<close> keeps the bits, so both are the same word and
  \<open>sint\<close> reads the signed value.

  \<^verbatim>\<open>time.Time\<close> belongs to the standard library. An instant is idealised as an
  unbounded count of nanoseconds since the zero \<^verbatim>\<open>time.Time\<close>; \<^verbatim>\<open>Add\<close>,
  \<^verbatim>\<open>After\<close> and \<^verbatim>\<open>Before\<close> are exact.
\<close>

type_synonym Time = int
type_synonym Duration = "64 word"
type_synonym go_int = "64 word"
type_synonym go_uint = "64 word"

definition time_Second :: Duration where
  "time_Second = 1000000000"

definition Add :: "Time \<Rightarrow> Duration \<Rightarrow> Time" where
  "Add t d = t + sint d"

definition After :: "Time \<Rightarrow> Time \<Rightarrow> bool" where
  "After t u = (u < t)"

definition Before :: "Time \<Rightarrow> Time \<Rightarrow> bool" where
  "Before t u = (t < u)"

text \<open>
  Error values: what \<^verbatim>\<open>errors.New\<close> builds, and the two errors a context reports.
  A nil error is \<open>None\<close>.
\<close>

datatype error = errors_New string | context_Canceled | context_DeadlineExceeded

type_synonym response = "string \<times> error option"

text \<open>
  A context is known by the instant from which \<^verbatim>\<open>ctx.Done()\<close> can be received
  (\<open>None\<close>: it is never cancelled) and by what \<^verbatim>\<open>ctx.Err()\<close> returns from then on.
\<close>

record Context =
  done_at :: "Time option"
  ctx_Err :: error

text \<open>
  The world outside the decorators: \<open>clock\<close> is what \<^verbatim>\<open>time.Now()\<close> returns,
  \<open>calls\<close> counts the invocations of an instrumented operation (see \<open>counted\<close>), and
  \<open>pick_done\<close> is the runtime's choice when both cases of a \<^verbatim>\<open>select\<close> are ready.
  A wrapped operation is a function of the context and the world; it returns its
  (string, error) pair and the world it leaves behind, so it may take time.
\<close>

record world =
  clock :: Time
  calls :: nat
  pick_done :: bool

type_synonym 'w Circuit = "Context \<Rightarrow> 'w \<Rightarrow> response \<times> 'w"
type_synonym 'w Effector = "Context \<Rightarrow> 'w \<Rightarrow> response \<times> 'w"

text \<open>
  Instrumentation, as a test double would do it: \<open>counted circuit\<close> behaves as
  \<open>circuit\<close> and adds one to \<open>calls\<close> every time it is invoked.
\<close>

definition counted :: "'a world_scheme Circuit \<Rightarrow> 'a world_scheme Circuit" where
  "counted circuit ctx w =
     (case circuit ctx w of (r, w') \<Rightarrow> (r, w'\<lparr>calls := Suc (calls w)\<rparr>))"

subsection \<open>Breaker\<close>

text \<open>
  \<^verbatim>\<open>
  func Breaker(circuit Circuit, failureThreshold uint) Circuit {
      var consecutiveFailures int = 0
      var lastAttempt = time.Now()
      return func(ctx context.Context) (string, error) {
          d := consecutiveFailures - int(failureThreshold)
          if d >= 0 {
              shouldRetryAt := lastAttempt.Add(time.Second * 2 << d)
              if !time.Now().After(shouldRetryAt) {
                  return "", errors.New("service unreachable")
              }
          }
          response, err := circuit(ctx)
          lastAttempt = time.Now()
          if err != nil {
              consecutiveFailures++
              return response, err
          }
          consecutiveFailures = 0
          return response, nil
      }
  }
  \<close>
  In Go \<^verbatim>\<open>*\<close> and \<^verbatim>\<open><<\<close> have the same precedence and associate to the left, so the
  backoff is \<^verbatim>\<open>(time.Second * 2) << d\<close>, a shift of an \<^verbatim>\<open>int64\<close> that drops the bits
  shifted out.
\<close>

record breaker =
  consecutiveFailures :: go_int
  lastAttempt :: Time

definition Breaker_init :: "'a world_scheme \<Rightarrow> breaker" where
  "Breaker_init w = \<lparr>consecutiveFailures = 0, lastAttempt = clock w\<rparr>"

definition Breaker ::
  "'a world_scheme Circuit \<Rightarrow> go_uint \<Rightarrow> Context \<Rightarrow> breaker \<times> 'a world_scheme
     \<Rightarrow> response \<times> breaker \<times> 'a world_scheme" where
  "Breaker circuit failureThreshold ctx = (\<lambda>(st, w).
     let d = consecutiveFailures st - failureThreshold in
     if 0 \<le> sint d \<and>
        \<not> After (clock w) (Add (lastAttempt st) (push_bit (nat (sint d)) (time_Second * 2)))
     then (('''', Some (errors_New ''service unreachable'')), st, w)
     else
       (case circuit ctx w of ((response, err), w') \<Rightarrow>
          let st1 = st\<lparr>lastAttempt := clock w'\<rparr> in
          (case err of
             Some e \<Rightarrow>
               ((response, Some e),
                st1\<lparr>consecutiveFailures := consecutiveFailures st1 + 1\<rparr>, w')
           | None \<Rightarrow> ((response, None), st1\<lparr>consecutiveFailures := 0\<rparr>, w'))))"

subsection \<open>Debounce\<close>

text \<open>
  \<^verbatim>\<open>
  func Debounce(circuit Circuit, duration time.Duration) Circuit {
      var threshold time.Time
      var result string
      var err error
      return func(ctx context.Context) (string, error) {
          defer func() { threshold = time.Now().Add(duration) }()
          if time.Now().Before(threshold) {
              return result, err
          }
          result, err = circuit(ctx)
          return result, nil
      }
  }
  \<close>
  The deferred function runs after the returned pair is fixed, on both paths.
  \<open>threshold\<close> starts as the zero \<^verbatim>\<open>time.Time\<close>, instant 0 here; the clock of a
  running program reads later than that.
\<close>

record debounce =
  threshold :: Time
  result :: string
  err :: "error option"

definition Debounce_init :: debounce where
  "Debounce_init = \<lparr>threshold = 0, result = '''', err = None\<rparr>"

definition Debounce ::
  "'a world_scheme Circuit \<Rightarrow> Duration \<Rightarrow> Context \<Rightarrow> debounce \<times> 'a world_scheme
     \<Rightarrow> response \<times> debounce \<times> 'a world_scheme" where
  "Debounce circuit duration ctx = (\<lambda>(st, w).
     if Before (clock w) (threshold st)
     then ((result st, err st), st\<lparr>threshold := Add (clock w) duration\<rparr>, w)
     else
       (case circuit ctx w of ((r, e), w') \<Rightarrow>
          ((r, None), st\<lparr>result := r, err := e, threshold := Add (clock w') duration\<rparr>, w')))"

subsection \<open>Retry\<close>

text \<open>
  \<^verbatim>\<open>
  func Retry(effector Effector, retries int, delay time.Duration) Effector {
      return func(ctx context.Context) (string, error) {
          for r := 0; ; r++ {
              resp, err := effector(ctx)
              if err == nil || r >= retries {
                  return resp, nil
              }
              select {
              case <-time.After(delay):
              case <-ctx.Done():
                  return "", ctx.Err()
              }
          }
      }
  }
  \<close>
  The \<^verbatim>\<open>select\<close> waits for the first of two events: the timer, ready \<open>delay\<close> after
  the wait begins (at once when \<open>delay\<close> is not positive), and the context, ready from
  \<open>done_at\<close>. When both become ready at the same instant the runtime picks one;
  \<open>pick_done\<close> is that choice. \<open>select_wait\<close> returns the context's error when the
  second case is taken, and the world at the instant the wait ends.

  The counter \<open>r\<close> is only incremented while \<open>r < retries\<close>, so it never overflows and
  both are unbounded integers here.
\<close>

definition select_wait ::
  "Duration \<Rightarrow> Context \<Rightarrow> 'a world_scheme \<Rightarrow> error option \<times> 'a world_scheme" where
  "select_wait delay ctx w =
     (let timer = clock w + max 0 (sint delay) in
      case done_at ctx of
        None \<Rightarrow> (None, w\<lparr>clock := timer\<rparr>)
      | Some c \<Rightarrow>
          let ready = max c (clock w) in
          if ready < timer \<or> (ready = timer \<and> pick_done w)
          then (Some (ctx_Err ctx), w\<lparr>clock := ready\<rparr>)
          else (None, w\<lparr>clock := timer\<rparr>))"

function Retry_loop ::
  "'a world_scheme Effector \<Rightarrow> int \<Rightarrow> Duration \<Rightarrow> Context \<Rightarrow> int \<Rightarrow> 'a world_scheme
     \<Rightarrow> response \<times> 'a world_scheme" where
  "Retry_loop effector retries delay ctx r w =
     (case effector ctx w of ((resp, e), w') \<Rightarrow>
        if e = None \<or> r \<ge> retries then ((resp, None), w')
        else
          (case select_wait delay ctx w' of
             (Some ce, w'') \<Rightarrow> (('''', Some ce), w'')
           | (None, w'') \<Rightarrow> Retry_loop effector retries delay ctx (r + 1) w''))"
  by pat_completeness auto
termination
  by (relation "measure (\<lambda>(effector, retries, delay, ctx, r, w). nat (retries - r))") auto

declare Retry_loop.simps [simp del]

definition Retry ::
  "'a world_scheme Effector \<Rightarrow> int \<Rightarrow> Duration \<Rightarrow> Context \<Rightarrow> 'a world_scheme
     \<Rightarrow> response \<times> 'a world_scheme" where
  "Retry effector retries delay ctx w = Retry_loop effector retries delay ctx 0 w"

subsection \<open>Sequences of calls\<close>

text \<open>
  A caller that invokes a decorated operation once at each of the given clock readings,
  threading the decorator's state and the world, and collects the returned pairs.
\<close>

fun run_calls ::
  "('s \<times> 'a world_scheme \<Rightarrow> response \<times> 's \<times> 'a world_scheme) \<Rightarrow> Time list
     \<Rightarrow> 's \<times> 'a world_scheme \<Rightarrow> response list \<times> 's \<times> 'a world_scheme" where
  "run_calls f [] sw = ([], sw)"
| "run_calls f (now # nows) (s, w) =
     (case f (s, w\<lparr>clock := now\<rparr>) of (x, sw') \<Rightarrow>
        (case run_calls f nows sw' of (xs, sw'') \<Rightarrow> (x # xs, sw'')))"

text \<open>
  The same caller, watching for an unbroken run of failed invocations: every call must
  return an error and must have invoked the instrumented operation. \<open>None\<close> when some
  call did not.
\<close>

fun consecutive_failures ::
  "('s \<times> 'a world_scheme \<Rightarrow> response \<times> 's \<times> 'a world_scheme) \<Rightarrow> Time list
     \<Rightarrow> 's \<times> 'a world_scheme \<Rightarrow> ('s \<times> 'a world_scheme) option" where
  "consecutive_failures f [] sw = Some sw"
| "consecutive_failures f (now # nows) (s, w) =
     (case f (s, w\<lparr>clock := now\<rparr>) of ((x, e), s', w') \<Rightarrow>
        if e \<noteq> None \<and> calls w' = Suc (calls w)
        then consecutive_failures f nows (s', w') else None)"


subsection \<open>Test doubles\<close>

text \<open>
  A context that is never cancelled, a world to start from, and wrapped operations
  that take \<open>n\<close> nanoseconds and then fail, or succeed; \<open>service ups n\<close> succeeds
  when it is called at one of the instants \<open>ups\<close> and fails otherwise.
\<close>

definition background :: Context where
  "background = \<lparr>done_at = None, ctx_Err = context_Canceled\<rparr>"

definition epoch :: world where
  "epoch = \<lparr>clock = 0, calls = 0, pick_done = False\<rparr>"

definition failing_after :: "int \<Rightarrow> 'a world_scheme Circuit" where
  "failing_after n ctx w = ((''partial'', Some (errors_New ''down'')), w\<lparr>clock := clock w + n\<rparr>)"

definition succeeding_after :: "int \<Rightarrow> 'a world_scheme Circuit" where
  "succeeding_after n ctx w = ((''pong'', None), w\<lparr>clock := clock w + n\<rparr>)"

definition service :: "Time list \<Rightarrow> int \<Rightarrow> 'a world_scheme Circuit" where
  "service ups n ctx w =
     (if clock w \<in> set ups then succeeding_after n ctx w else failing_after n ctx w)"

text \<open>
  A schedule of \<open>n\<close> probes of a breaker whose operation fails at once: each probe
  comes one nanosecond after \<open>2 ^ (k + 1)\<close> seconds have passed since the previous
  attempt at \<open>t\<close>, where \<open>k\<close> counts the failures past the threshold.
\<close>

fun probe_times :: "nat \<Rightarrow> nat \<Rightarrow> Time \<Rightarrow> Time list" where
  "probe_times 0 k t = []"
| "probe_times (Suc n) k t =
     (let u = t + 2 ^ (k + 1) * 1000000000 + 1 in u # probe_times n (Suc k) u)"

text \<open>
  Calls that each come before the suppression window, reset by the call before, has
  closed: \<open>thr\<close> is the end of the current window and \<open>d\<close> its length.
\<close>

fun spaced :: "Time \<Rightarrow> int \<Rightarrow> Time list \<Rightarrow> bool" where
  "spaced thr d [] = True"
| "spaced thr d (now # nows) = (now < thr \<and> spaced (now + d) d nows)"

section \<open>Properties\<close>

subsection \<open>Auxiliary facts\<close>

lemma backoff_small:
  assumes "n \<le> 32"
  shows "sint (push_bit n (time_Second * 2) :: 64 word) = 2 ^ (n + 1) * 1000000000"
proof -
  have "(2::int) ^ n \<le> 2 ^ 32" using assms by (intro power_increasing) simp_all
  then have le: "(2::int) ^ n \<le> 4294967296" by simp
  have eq: "(push_bit n (time_Second * 2) :: 64 word) = word_of_int (2000000000 * 2 ^ n)"
    by (simp add: time_Second_def push_bit_eq_mult)
  have "signed_take_bit 63 (2000000000 * 2 ^ n :: int) = 2000000000 * 2 ^ n"
  proof (rule signed_take_bit_int_eq_self)
    have "(0::int) \<le> 2000000000 * 2 ^ n" by simp
    moreover have "- (2 ^ 63) \<le> (0::int)" by simp
    ultimately show "- (2 ^ 63) \<le> (2000000000 * 2 ^ n :: int)" by (rule order_trans [rotated])
    show "(2000000000 * 2 ^ n :: int) < 2 ^ 63" using le by simp
  qed
  then have "sint (word_of_int (2000000000 * 2 ^ n) :: 64 word) = 2000000000 * 2 ^ n"
    by (simp only: sint_sbintrunc') simp
  then show ?thesis using eq by simp
qed

lemma Breaker_rejected:
  assumes "0 \<le> sint (consecutiveFailures st - t)"
    and "clock w \<le> lastAttempt st
           + sint (push_bit (nat (sint (consecutiveFailures st - t))) (time_Second * 2) :: 64 word)"
  shows "Breaker circuit t ctx (st, w) = (('''', Some (errors_New ''service unreachable'')), st, w)"
  using assms by (simp add: Breaker_def Let_def After_def Add_def)

lemma Breaker_invoked:
  assumes "sint (consecutiveFailures st - t) < 0 \<or>
     lastAttempt st
       + sint (push_bit (nat (sint (consecutiveFailures st - t))) (time_Second * 2) :: 64 word)
       < clock w"
    and "circuit ctx w = ((x, e), w')"
  shows "Breaker circuit t ctx (st, w) =
           ((x, e),
            \<lparr>consecutiveFailures = (if e = None then 0 else consecutiveFailures st + 1),
             lastAttempt = clock w'\<rparr>, w')"
  using assms by (auto simp: Breaker_def Let_def After_def Add_def split: option.splits)

lemma counted_calls: "counted circuit ctx w = (r, w') \<Longrightarrow> calls w' = Suc (calls w)"
  by (auto simp: counted_def split: prod.splits)

lemma Breaker_counted_cases:
  assumes "Breaker (counted circuit) t ctx (st, w) = ((x, e), st', w')"
  shows "(calls w' = calls w \<and> st' = st \<and> w' = w \<and> x = '''' \<and>
            e = Some (errors_New ''service unreachable''))
       \<or> (calls w' = Suc (calls w) \<and> counted circuit ctx w = ((x, e), w') \<and>
            consecutiveFailures st' = (if e = None then 0 else consecutiveFailures st + 1) \<and>
            lastAttempt st' = clock w')"
proof (cases "0 \<le> sint (consecutiveFailures st - t) \<and> clock w \<le> lastAttempt st
           + sint (push_bit (nat (sint (consecutiveFailures st - t))) (time_Second * 2) :: 64 word)")
  case True
  then show ?thesis using assms Breaker_rejected [of st t w "counted circuit" ctx] by simp
next
  case False
  obtain x1 e1 w1 where c: "counted circuit ctx w = ((x1, e1), w1)"
    by (metis prod.exhaust)
  from False have "sint (consecutiveFailures st - t) < 0 \<or>
     lastAttempt st
       + sint (push_bit (nat (sint (consecutiveFailures st - t))) (time_Second * 2) :: 64 word)
       < clock w" by linarith
  then have "Breaker (counted circuit) t ctx (st, w) =
           ((x1, e1),
            \<lparr>consecutiveFailures = (if e1 = None then 0 else consecutiveFailures st + 1),
             lastAttempt = clock w1\<rparr>, w1)"
    using c by (rule Breaker_invoked)
  with assms counted_calls [OF c] c show ?thesis by auto
qed

lemma consecutive_failures_Breaker:
  "consecutive_failures (Breaker (counted circuit) t ctx) nows (st, w) = Some (st', w')
   \<Longrightarrow> consecutiveFailures st' = consecutiveFailures st + of_nat (length nows)"
proof (induction nows arbitrary: st w)
  case Nil
  then show ?case by simp
next
  case (Cons now nows)
  obtain x e s1 w1
    where b: "Breaker (counted circuit) t ctx (st, w\<lparr>clock := now\<rparr>) = ((x, e), s1, w1)"
    by (metis prod.exhaust)
  with Cons.prems have ok: "e \<noteq> None" "calls w1 = Suc (calls w)"
    and rest: "consecutive_failures (Breaker (counted circuit) t ctx) nows (s1, w1) = Some (st', w')"
    by (auto split: if_splits)
  from Breaker_counted_cases [OF b] ok have "consecutiveFailures s1 = consecutiveFailures st + 1"
    by auto
  with Cons.IH [OF rest] show ?case by simp
qed


lemma sint_small_nat:
  assumes "k \<le> 32"
  shows "sint (of_nat k :: 64 word) = int k"
proof -
  have "signed_take_bit 63 (int k) = int k"
  proof (rule signed_take_bit_int_eq_self)
    have "- (2 ^ 63) \<le> (0::int)" by simp
    then show "- (2 ^ 63) \<le> int k" by linarith
    have "int k \<le> 32" using assms by simp
    also have "\<dots> < 2 ^ 63" by simp
    finally show "int k < 2 ^ 63" .
  qed
  moreover have "(of_nat k :: 64 word) = word_of_int (int k)" by simp
  ultimately show ?thesis by (simp only: sint_sbintrunc') simp
qed

lemma Breaker_gate:
  assumes cf: "consecutiveFailures st = t + of_nat k" and k: "k \<le> 32"
  shows "(clock w \<le> lastAttempt st + 2 ^ (k + 1) * 1000000000 \<longrightarrow>
            Breaker circuit t ctx (st, w)
              = (('''', Some (errors_New ''service unreachable'')), st, w))
       \<and> (lastAttempt st + 2 ^ (k + 1) * 1000000000 < clock w \<longrightarrow>
            circuit ctx w = ((x, e), w') \<longrightarrow>
            Breaker circuit t ctx (st, w)
              = ((x, e),
                 \<lparr>consecutiveFailures = (if e = None then 0 else consecutiveFailures st + 1),
                  lastAttempt = clock w'\<rparr>, w'))"
proof -
  have d: "consecutiveFailures st - t = of_nat k" using cf by simp
  have sd: "sint (consecutiveFailures st - t) = int k" using d sint_small_nat [OF k] by simp
  have b: "sint (push_bit (nat (sint (consecutiveFailures st - t))) (time_Second * 2) :: 64 word)
             = 2 ^ (k + 1) * 1000000000"
    using backoff_small [OF k] sd by simp
  show ?thesis
  proof (intro conjI impI)
    assume "clock w \<le> lastAttempt st + 2 ^ (k + 1) * 1000000000"
    then show "Breaker circuit t ctx (st, w)
              = (('''', Some (errors_New ''service unreachable'')), st, w)"
      using sd b by (intro Breaker_rejected) simp_all
  next
    assume "lastAttempt st + 2 ^ (k + 1) * 1000000000 < clock w"
      and c: "circuit ctx w = ((x, e), w')"
    then have "sint (consecutiveFailures st - t) < 0 \<or>
     lastAttempt st
       + sint (push_bit (nat (sint (consecutiveFailures st - t))) (time_Second * 2) :: 64 word)
       < clock w" using b by simp
    then show "Breaker circuit t ctx (st, w)
              = ((x, e),
                 \<lparr>consecutiveFailures = (if e = None then 0 else consecutiveFailures st + 1),
                  lastAttempt = clock w'\<rparr>, w')"
      using c by (rule Breaker_invoked)
  qed
qed

lemma run_calls_Breaker_fresh:
  "\<forall>now \<in> set nows. now < T + 2 * 1000000000 \<Longrightarrow>
   run_calls (Breaker circuit 0 ctx) nows (\<lparr>consecutiveFailures = 0, lastAttempt = T\<rparr>, w)
     = (replicate (length nows) ('''', Some (errors_New ''service unreachable'')),
        \<lparr>consecutiveFailures = 0, lastAttempt = T\<rparr>, w\<lparr>clock := last (clock w # nows)\<rparr>)"
proof (induction nows arbitrary: w)
  case Nil
  then show ?case by simp
next
  case (Cons now nows)
  have "Breaker circuit 0 ctx (\<lparr>consecutiveFailures = 0, lastAttempt = T\<rparr>, w\<lparr>clock := now\<rparr>)
          = (('''', Some (errors_New ''service unreachable'')),
             \<lparr>consecutiveFailures = 0, lastAttempt = T\<rparr>, w\<lparr>clock := now\<rparr>)"
    using Breaker_gate [of "\<lparr>consecutiveFailures = 0, lastAttempt = T\<rparr>" 0 0
                           "w\<lparr>clock := now\<rparr>" circuit ctx] Cons.prems
    by simp
  moreover have "\<forall>now \<in> set nows. now < T + 2 * 1000000000" using Cons.prems by simp
  ultimately show ?case using Cons.IH [of "w\<lparr>clock := now\<rparr>"] by simp
qed

lemma Debounce_cached:
  "clock w < threshold st \<Longrightarrow>
   Debounce circuit duration ctx (st, w)
     = ((result st, err st), st\<lparr>threshold := Add (clock w) duration\<rparr>, w)"
  by (simp add: Debounce_def Before_def)

lemma Debounce_fresh:
  "threshold st \<le> clock w \<Longrightarrow> circuit ctx w = ((r, e), w') \<Longrightarrow>
   Debounce circuit duration ctx (st, w)
     = ((r, None), st\<lparr>result := r, err := e, threshold := Add (clock w') duration\<rparr>, w')"
  by (simp add: Debounce_def Before_def)

lemma run_calls_Debounce_spaced:
  "spaced (threshold st) (sint duration) nows \<Longrightarrow>
   run_calls (Debounce circuit duration ctx) nows (st, w)
     = (replicate (length nows) (result st, err st),
        st\<lparr>threshold := last (threshold st # map (\<lambda>now. Add now duration) nows)\<rparr>,
        w\<lparr>clock := last (clock w # nows)\<rparr>)"
proof (induction nows arbitrary: st w)
  case Nil
  then show ?case by simp
next
  case (Cons now nows)
  from Cons.prems have hit: "clock (w\<lparr>clock := now\<rparr>) < threshold st" by simp
  from Cons.prems
  have "spaced (threshold (st\<lparr>threshold := Add now duration\<rparr>)) (sint duration) nows"
    by (simp add: Add_def)
  from Cons.IH [OF this, of "w\<lparr>clock := now\<rparr>"]
       Debounce_cached [OF hit, of circuit duration ctx]
  show ?case by simp
qed

lemma Retry_loop_step:
  "effector ctx w = ((resp, e), w') \<Longrightarrow>
   Retry_loop effector retries delay ctx r w =
     (if e = None \<or> retries \<le> r then ((resp, None), w')
      else (case select_wait delay ctx w' of
              (Some ce, w'') \<Rightarrow> (('''', Some ce), w'')
            | (None, w'') \<Rightarrow> Retry_loop effector retries delay ctx (r + 1) w''))"
  by (subst Retry_loop.simps) simp

lemma select_wait_calls: "select_wait delay ctx w = (x, w') \<Longrightarrow> calls w' = calls w"
  by (auto simp: select_wait_def Let_def split: option.splits if_splits)

lemma select_wait_never: "done_at ctx = None \<Longrightarrow> fst (select_wait delay ctx w) = None"
  by (simp add: select_wait_def Let_def)

lemma Retry_loop_count:
  assumes fails: "\<And>c v. snd (fst (effector c v)) \<noteq> None" and never: "done_at ctx = None"
  shows "r \<le> m \<Longrightarrow>
         calls (snd (Retry_loop (counted effector) m delay ctx r w)) = calls w + nat (m - r) + 1
         \<and> snd (fst (Retry_loop (counted effector) m delay ctx r w)) = None"
proof (induction "nat (m - r)" arbitrary: r w)
  case 0
  obtain resp e w' where c: "counted effector ctx w = ((resp, e), w')" by (metis prod.exhaust)
  from 0 have "m \<le> r" by simp
  with Retry_loop_step [of "counted effector" ctx w resp e w' m delay r, OF c] counted_calls [OF c] 0 show ?case by simp
next
  case (Suc n)
  obtain resp e w' where c: "counted effector ctx w = ((resp, e), w')" by (metis prod.exhaust)
  then have "e \<noteq> None" using fails [of ctx w] by (auto simp: counted_def split: prod.splits)
  moreover from Suc have lt: "\<not> m \<le> r" by simp
  moreover obtain x w'' where s: "select_wait delay ctx w' = (x, w'')" by (metis prod.exhaust)
  moreover have "x = None" using select_wait_never [OF never, of delay w'] s by simp
  ultimately have step: "Retry_loop (counted effector) m delay ctx r w
                   = Retry_loop (counted effector) m delay ctx (r + 1) w''"
    using Retry_loop_step [of "counted effector" ctx w resp e w' m delay r, OF c] by auto
  have n: "n = nat (m - (r + 1))" and le: "r + 1 \<le> m" using Suc.hyps(2) lt by simp_all
  have "calls w'' = Suc (calls w)" using select_wait_calls [OF s] counted_calls [OF c] by simp
  with Suc.hyps(1) [OF n le, of w''] step Suc.hyps(2) n show ?case by simp
qed

lemma Retry_loop_bound:
  "calls (snd (Retry_loop (counted effector) m delay ctx r w)) \<le> calls w + nat (m - r) + 1"
proof (induction "nat (m - r)" arbitrary: r w)
  case 0
  obtain resp e w' where c: "counted effector ctx w = ((resp, e), w')" by (metis prod.exhaust)
  from 0 have "m \<le> r" by simp
  with Retry_loop_step [of "counted effector" ctx w resp e w' m delay r, OF c] counted_calls [OF c] show ?case by simp
next
  case (Suc n)
  obtain resp e w' where c: "counted effector ctx w = ((resp, e), w')" by (metis prod.exhaust)
  obtain x w'' where s: "select_wait delay ctx w' = (x, w'')" by (metis prod.exhaust)
  have w'': "calls w'' = Suc (calls w)" and w': "calls w' = Suc (calls w)"
    using select_wait_calls [OF s] counted_calls [OF c] by simp_all
  from Suc.hyps(2) have lt: "\<not> m \<le> r" by simp
  have n: "n = nat (m - (r + 1))" using Suc.hyps(2) lt by simp
  show ?case
  proof (cases "e = None")
    case True
    with Retry_loop_step [of "counted effector" ctx w resp e w' m delay r, OF c] w' show ?thesis by simp
  next
    case False
    show ?thesis
    proof (cases x)
      case None
      with False lt s Retry_loop_step [of "counted effector" ctx w resp e w' m delay r, OF c]
      have "Retry_loop (counted effector) m delay ctx r w
              = Retry_loop (counted effector) m delay ctx (r + 1) w''" by auto
      with Suc.hyps(1) [OF n, of w''] w'' Suc.hyps(2) show ?thesis by simp
    next
      case (Some ce)
      with False lt s Retry_loop_step [of "counted effector" ctx w resp e w' m delay r, OF c] w'' show ?thesis by auto
    qed
  qed
qed

subsection \<open>C1: the gate of the breaker\<close>

text \<open>
  C1 says that a call is rejected whenever \<open>d = consecutiveFailures - failureThreshold\<close>
  is not negative and the current time has not passed \<open>lastAttempt + 2 ^ (d + 1)\<close>
  seconds. The code computes the backoff as an \<^verbatim>\<open>int64\<close> shift, which holds
  \<open>2 ^ (d + 1)\<close> seconds only up to \<open>d = 32\<close> (lemma \<open>Breaker_gate\<close>). At
  \<open>d = 33\<close> it wraps to a negative duration. A fresh breaker with threshold 0 whose
  operation has failed 33 times in a row, each probe made one nanosecond after the
  backoff of the attempt before it was over, has \<open>d = 33\<close>; a call one second after
  the last attempt, long before \<open>2 ^ 34\<close> seconds have passed, is not rejected but
  invokes the operation a 34th time.
\<close>

theorem Breaker_backoff_overflow:
  "consecutive_failures (Breaker (counted (failing_after 0)) 0 background)
       (probe_times 33 0 0) (Breaker_init epoch, epoch)
     = Some (\<lparr>consecutiveFailures = 33, lastAttempt = 17179869182000000033\<rparr>,
             \<lparr>clock = 17179869182000000033, calls = 33, pick_done = False\<rparr>)
   \<and> (17179869183000000033 :: Time) \<le> 17179869182000000033 + 2 ^ (33 + 1) * 1000000000
   \<and> Breaker (counted (failing_after 0)) 0 background
       (\<lparr>consecutiveFailures = 33, lastAttempt = 17179869182000000033\<rparr>,
        \<lparr>clock = 17179869183000000033, calls = 33, pick_done = False\<rparr>)
     = ((''partial'', Some (errors_New ''down'')),
        \<lparr>consecutiveFailures = 34, lastAttempt = 17179869183000000033\<rparr>,
        \<lparr>clock = 17179869183000000033, calls = 34, pick_done = False\<rparr>)"
proof (intro conjI)
  show "consecutive_failures (Breaker (counted (failing_after 0)) 0 background)
       (probe_times 33 0 0) (Breaker_init epoch, epoch)
     = Some (\<lparr>consecutiveFailures = 33, lastAttempt = 17179869182000000033\<rparr>,
             \<lparr>clock = 17179869182000000033, calls = 33, pick_done = False\<rparr>)"
    by code_simp
  show "(17179869183000000033 :: Time) \<le> 17179869182000000033 + 2 ^ (33 + 1) * 1000000000"
    by simp
  show "Breaker (counted (failing_after 0)) 0 background
       (\<lparr>consecutiveFailures = 33, lastAttempt = 17179869182000000033\<rparr>,
        \<lparr>clock = 17179869183000000033, calls = 33, pick_done = False\<rparr>)
     = ((''partial'', Some (errors_New ''down'')),
        \<lparr>consecutiveFailures = 34, lastAttempt = 17179869183000000033\<rparr>,
        \<lparr>clock = 17179869183000000033, calls = 34, pick_done = False\<rparr>)"
    by code_simp
qed

subsection \<open>C2: rejection after the threshold, and the first three backoff intervals\<close>



subsection \<open>C3: the failure counter\<close>

text \<open>
  C3: for every call of a breaker over an instrumented operation: when the operation
  was invoked and succeeded, the state becomes that of a freshly built breaker (counter
  0, last attempt now), whatever the counter was before; when it was invoked and failed,
  the counter grows by exactly 1; when it was not invoked, the state is unchanged. And
  after such a success, a run of failed invocations leaves the counter at the length of
  that run alone, so the failures before the success no longer count towards the
  threshold.
\<close>

theorem Breaker_counter:
  assumes call: "Breaker (counted circuit) t ctx (st, w) = ((x, e), st', w')"
  shows "(calls w' = Suc (calls w) \<and> e = None \<longrightarrow> st' = Breaker_init w')
       \<and> (calls w' = Suc (calls w) \<and> e \<noteq> None \<longrightarrow>
            consecutiveFailures st' = consecutiveFailures st + 1)
       \<and> (calls w' \<noteq> Suc (calls w) \<longrightarrow> st' = st)
       \<and> (calls w' = Suc (calls w) \<and> e = None \<and>
          consecutive_failures (Breaker (counted circuit) t ctx) nows (st', w2) = Some (st3, w3)
            \<longrightarrow> consecutiveFailures st3 = of_nat (length nows))"
proof -
  note cases = Breaker_counted_cases [OF call]
  have reset: "st' = Breaker_init w'" if "calls w' = Suc (calls w) \<and> e = None"
  proof -
    from cases that have "consecutiveFailures st' = 0" "lastAttempt st' = clock w'" by auto
    then show ?thesis by (simp add: Breaker_init_def)
  qed
  have incr: "consecutiveFailures st' = consecutiveFailures st + 1"
    if "calls w' = Suc (calls w) \<and> e \<noteq> None"
    using cases that by auto
  have same: "st' = st" if "calls w' \<noteq> Suc (calls w)"
    using cases that by auto
  have again: "consecutiveFailures st3 = of_nat (length nows)"
    if a: "calls w' = Suc (calls w) \<and> e = None \<and>
          consecutive_failures (Breaker (counted circuit) t ctx) nows (st', w2) = Some (st3, w3)"
  proof -
    from reset a have "consecutiveFailures st' = 0" by (simp add: Breaker_init_def)
    with a consecutive_failures_Breaker [of circuit t ctx nows st' w2 st3 w3]
    show ?thesis by simp
  qed
  from reset incr same again show ?thesis by blast
qed

text \<open>
  Threshold 5, a service that is up only at instant 30: a success after two failures
  resets the counter, two more failures bring it to 2 (not 4); a failure takes it from 1
  to 2; a rejected call leaves it at 5.
\<close>

theorem Breaker_counter_witness:
  "Breaker (counted (service [30] 0)) 5 background
      (\<lparr>consecutiveFailures = 2, lastAttempt = 20\<rparr>, \<lparr>clock = 30, calls = 2, pick_done = False\<rparr>)
    = ((''pong'', None), \<lparr>consecutiveFailures = 0, lastAttempt = 30\<rparr>,
       \<lparr>clock = 30, calls = 3, pick_done = False\<rparr>)
   \<and> \<lparr>consecutiveFailures = 0, lastAttempt = 30\<rparr>
        = Breaker_init \<lparr>clock = 30, calls = 3, pick_done = False\<rparr>
   \<and> consecutive_failures (Breaker (counted (service [30] 0)) 5 background) [40, 50]
        (\<lparr>consecutiveFailures = 0, lastAttempt = 30\<rparr>, \<lparr>clock = 30, calls = 3, pick_done = False\<rparr>)
      = Some (\<lparr>consecutiveFailures = 2, lastAttempt = 50\<rparr>,
              \<lparr>clock = 50, calls = 5, pick_done = False\<rparr>)
   \<and> consecutiveFailures \<lparr>consecutiveFailures = 2, lastAttempt = 50\<rparr>
        = of_nat (length [40, 50 :: Time])
   \<and> Breaker (counted (service [30] 0)) 5 background
        (\<lparr>consecutiveFailures = 1, lastAttempt = 10\<rparr>, \<lparr>clock = 20, calls = 1, pick_done = False\<rparr>)
      = ((''partial'', Some (errors_New ''down'')), \<lparr>consecutiveFailures = 2, lastAttempt = 20\<rparr>,
         \<lparr>clock = 20, calls = 2, pick_done = False\<rparr>)
   \<and> consecutiveFailures \<lparr>consecutiveFailures = 2, lastAttempt = 20\<rparr>
        = consecutiveFailures \<lparr>consecutiveFailures = 1, lastAttempt = 10\<rparr> + 1
   \<and> Breaker (counted (service [30] 0)) 5 background
        (\<lparr>consecutiveFailures = 5, lastAttempt = 50\<rparr>, \<lparr>clock = 51, calls = 5, pick_done = False\<rparr>)
      = (('''', Some (errors_New ''service unreachable'')),
         \<lparr>consecutiveFailures = 5, lastAttempt = 50\<rparr>,
         \<lparr>clock = 51, calls = 5, pick_done = False\<rparr>)"
proof -
  have ok: "Breaker (counted (service [30] 0)) 5 background
      (\<lparr>consecutiveFailures = 2, lastAttempt = 20\<rparr>, \<lparr>clock = 30, calls = 2, pick_done = False\<rparr>)
    = ((''pong'', None), \<lparr>consecutiveFailures = 0, lastAttempt = 30\<rparr>,
       \<lparr>clock = 30, calls = 3, pick_done = False\<rparr>)"
    by code_simp
  have streak: "consecutive_failures (Breaker (counted (service [30] 0)) 5 background) [40, 50]
        (\<lparr>consecutiveFailures = 0, lastAttempt = 30\<rparr>, \<lparr>clock = 30, calls = 3, pick_done = False\<rparr>)
      = Some (\<lparr>consecutiveFailures = 2, lastAttempt = 50\<rparr>,
              \<lparr>clock = 50, calls = 5, pick_done = False\<rparr>)"
    by code_simp
  have down: "Breaker (counted (service [30] 0)) 5 background
        (\<lparr>consecutiveFailures = 1, lastAttempt = 10\<rparr>, \<lparr>clock = 20, calls = 1, pick_done = False\<rparr>)
      = ((''partial'', Some (errors_New ''down'')), \<lparr>consecutiveFailures = 2, lastAttempt = 20\<rparr>,
         \<lparr>clock = 20, calls = 2, pick_done = False\<rparr>)"
    by code_simp
  have rej: "Breaker (counted (service [30] 0)) 5 background
        (\<lparr>consecutiveFailures = 5, lastAttempt = 50\<rparr>, \<lparr>clock = 51, calls = 5, pick_done = False\<rparr>)
      = (('''', Some (errors_New ''service unreachable'')),
         \<lparr>consecutiveFailures = 5, lastAttempt = 50\<rparr>,
         \<lparr>clock = 51, calls = 5, pick_done = False\<rparr>)"
    by code_simp
  from Breaker_counter [OF ok, of "[40, 50]" "\<lparr>clock = 30, calls = 3, pick_done = False\<rparr>"
         "\<lparr>consecutiveFailures = 2, lastAttempt = 50\<rparr>"
         "\<lparr>clock = 50, calls = 5, pick_done = False\<rparr>"]
       Breaker_counter [OF down] Breaker_counter [OF rej] ok streak down rej
  show ?thesis by simp
qed

subsection \<open>C4: the attempts of a retry\<close>

text \<open>
  C4: in any iteration of the loop, when the attempt succeeds or the counter has reached
  \<open>maxRetries\<close>, the loop returns the result of that attempt with a nil error and the
  world as the attempt left it (no wait), even when the attempt failed. For
  \<open>maxRetries = m \<ge> 0\<close>, an instrumented effector that always fails and a context
  that is never cancelled, a call of the decorated operation invokes the effector
  exactly \<open>m + 1\<close> times and returns a nil error. And for every effector and every
  context the number of invocations is at most \<open>m + 1\<close> (one when \<open>m\<close> is negative);
  that the call returns at all is the termination of \<open>Retry_loop\<close>, proved where it is
  defined.
\<close>

theorem Retry_attempts:
  "(effector ctx w = ((resp, e), w') \<and> (e = None \<or> m \<le> r) \<longrightarrow>
      Retry_loop effector m delay ctx r w = ((resp, None), w'))
   \<and> (0 \<le> m \<and> (\<forall>c v. snd (fst (effector c v)) \<noteq> None) \<and> done_at ctx = None \<longrightarrow>
        calls (snd (Retry (counted effector) m delay ctx w)) = calls w + nat m + 1
      \<and> snd (fst (Retry (counted effector) m delay ctx w)) = None)
   \<and> calls (snd (Retry (counted effector) m delay ctx w)) \<le> calls w + nat m + 1"
proof (intro conjI impI)
  assume "effector ctx w = ((resp, e), w') \<and> (e = None \<or> m \<le> r)"
  then show "Retry_loop effector m delay ctx r w = ((resp, None), w')"
    using Retry_loop_step [of effector ctx w resp e w' m delay r] by auto
next
  assume a: "0 \<le> m \<and> (\<forall>c v. snd (fst (effector c v)) \<noteq> None) \<and> done_at ctx = None"
  then have "calls (snd (Retry_loop (counted effector) m delay ctx 0 w)) = calls w + nat (m - 0) + 1
         \<and> snd (fst (Retry_loop (counted effector) m delay ctx 0 w)) = None"
    by (intro Retry_loop_count) simp_all
  then show "calls (snd (Retry (counted effector) m delay ctx w)) = calls w + nat m + 1"
    and "snd (fst (Retry (counted effector) m delay ctx w)) = None"
    by (simp_all add: Retry_def)
next
  show "calls (snd (Retry (counted effector) m delay ctx w)) \<le> calls w + nat m + 1"
    using Retry_loop_bound [of effector m delay ctx 0 w] by (simp add: Retry_def)
qed

text \<open>
  \<open>maxRetries = 3\<close> over an effector that always fails: four invocations, a nil error.
\<close>

theorem Retry_attempts_witness:
  "counted (failing_after 0) background \<lparr>clock = 3000000000, calls = 3, pick_done = False\<rparr>
     = ((''partial'', Some (errors_New ''down'')),
        \<lparr>clock = 3000000000, calls = 4, pick_done = False\<rparr>)
   \<and> (3 :: int) \<le> 3
   \<and> Retry_loop (counted (failing_after 0)) 3 time_Second background 3
        \<lparr>clock = 3000000000, calls = 3, pick_done = False\<rparr>
      = ((''partial'', None), \<lparr>clock = 3000000000, calls = 4, pick_done = False\<rparr>)
   \<and> (0 :: int) \<le> 3
   \<and> (\<forall>(c :: Context) (v :: world). snd (fst (failing_after 0 c v)) \<noteq> None)
   \<and> done_at background = None
   \<and> calls (snd (Retry (counted (failing_after 0)) 3 time_Second background epoch)) = 4
   \<and> snd (fst (Retry (counted (failing_after 0)) 3 time_Second background epoch)) = None
   \<and> Retry (counted (failing_after 0)) 3 time_Second background epoch
      = ((''partial'', None), \<lparr>clock = 3000000000, calls = 4, pick_done = False\<rparr>)"
proof -
  have last: "counted (failing_after 0) background
        \<lparr>clock = 3000000000, calls = 3, pick_done = False\<rparr>
     = ((''partial'', Some (errors_New ''down'')),
        \<lparr>clock = 3000000000, calls = 4, pick_done = False\<rparr>)"
    by (simp add: counted_def failing_after_def)
  have budget: "(3 :: int) \<le> 3" and m: "(0 :: int) \<le> 3" by simp_all
  have fails: "\<forall>(c :: Context) (v :: world). snd (fst (failing_after 0 c v)) \<noteq> None"
    by (simp add: failing_after_def)
  have never: "done_at background = None" by (simp add: background_def)
  have run: "Retry (counted (failing_after 0)) 3 time_Second background epoch
      = ((''partial'', None), \<lparr>clock = 3000000000, calls = 4, pick_done = False\<rparr>)"
    by code_simp
  note at_budget = Retry_attempts
    [where effector = "counted (failing_after 0)" and ctx = background
       and w = "\<lparr>clock = 3000000000, calls = 3, pick_done = False\<rparr>"
       and resp = "''partial''" and e = "Some (errors_New ''down'')"
       and w' = "\<lparr>clock = 3000000000, calls = 4, pick_done = False\<rparr>"
       and m = 3 and r = 3 and delay = time_Second, THEN conjunct1, THEN mp,
     OF conjI [OF last disjI2 [OF budget]]]
  note always = Retry_attempts
    [where effector = "failing_after 0" and ctx = background and w = epoch and m = 3
       and delay = time_Second, THEN conjunct2, THEN conjunct1, THEN mp,
     OF conjI [OF m conjI [OF fails never]]]
  have four: "calls (snd (Retry (counted (failing_after 0)) 3 time_Second background epoch)) = 4"
    using always [THEN conjunct1] by (simp add: epoch_def)
  from last budget at_budget m fails never four always [THEN conjunct2] run
  show ?thesis by blast
qed

subsection \<open>C5: calls inside and after the suppression window\<close>

text \<open>
  C5: a call made strictly before \<open>threshold\<close> returns the cached pair
  \<open>(result, err)\<close> as it is and leaves the world as it found it, whatever the wrapped
  operation is: the operation is not invoked. For a fresh debounce over an instrumented
  operation, the first call, made at or after the zero time, invokes it once; a second
  call made before \<open>duration\<close> has elapsed since the first call completed (as it is
  when the two calls are within \<open>duration\<close> of each other) leaves the count at one,
  and a second call made when \<open>duration\<close> has elapsed since the first call completed
  brings it to two.
\<close>

theorem Debounce_window:
  "(clock w < threshold st \<longrightarrow>
      Debounce circuit duration ctx (st, w)
        = ((result st, err st), st\<lparr>threshold := Add (clock w) duration\<rparr>, w))
   \<and> (0 \<le> clock w0 \<and>
       Debounce (counted circuit) duration ctx (Debounce_init, w0) = (x1, st1, w1) \<longrightarrow>
         calls w1 = Suc (calls w0)
       \<and> (now < Add (clock w1) duration \<longrightarrow>
            calls (snd (snd (Debounce (counted circuit) duration ctx (st1, w1\<lparr>clock := now\<rparr>))))
              = Suc (calls w0))
       \<and> (Add (clock w1) duration \<le> now \<longrightarrow>
            calls (snd (snd (Debounce (counted circuit) duration ctx (st1, w1\<lparr>clock := now\<rparr>))))
              = Suc (Suc (calls w0))))"
proof -
  have fresh: "calls w1 = Suc (calls w0) \<and> threshold st1 = Add (clock w1) duration"
    if a: "0 \<le> clock w0 \<and>
       Debounce (counted circuit) duration ctx (Debounce_init, w0) = (x1, st1, w1)"
  proof -
    obtain r e v where c: "counted circuit ctx w0 = ((r, e), v)" by (metis prod.exhaust)
    from a have "threshold Debounce_init \<le> clock w0" by (simp add: Debounce_init_def)
    with c a Debounce_fresh [of Debounce_init w0 "counted circuit" ctx r e v duration]
    have "w1 = v" and "threshold st1 = Add (clock w1) duration" by auto
    with counted_calls [OF c] show ?thesis by simp
  qed
  have hit: "calls (snd (snd (Debounce (counted circuit) duration ctx (st1, w1\<lparr>clock := now\<rparr>))))
              = calls w1"
    if "now < threshold st1"
    using that Debounce_cached [of "w1\<lparr>clock := now\<rparr>" st1 "counted circuit" duration ctx]
    by simp
  have miss: "calls (snd (snd (Debounce (counted circuit) duration ctx (st1, w1\<lparr>clock := now\<rparr>))))
              = Suc (calls w1)"
    if "threshold st1 \<le> now"
  proof -
    obtain r2 e2 v2 where c2: "counted circuit ctx (w1\<lparr>clock := now\<rparr>) = ((r2, e2), v2)"
      by (metis prod.exhaust)
    with that Debounce_fresh [of st1 "w1\<lparr>clock := now\<rparr>" "counted circuit" ctx r2 e2 v2 duration]
      counted_calls [OF c2]
    show ?thesis by simp
  qed
  show ?thesis
  proof (intro conjI impI)
    assume "clock w < threshold st"
    then show "Debounce circuit duration ctx (st, w)
        = ((result st, err st), st\<lparr>threshold := Add (clock w) duration\<rparr>, w)"
      by (rule Debounce_cached)
  next
    assume "0 \<le> clock w0 \<and>
       Debounce (counted circuit) duration ctx (Debounce_init, w0) = (x1, st1, w1)"
    then show "calls w1 = Suc (calls w0)" using fresh by simp
  next
    assume "0 \<le> clock w0 \<and>
       Debounce (counted circuit) duration ctx (Debounce_init, w0) = (x1, st1, w1)"
      and "now < Add (clock w1) duration"
    then show "calls (snd (snd (Debounce (counted circuit) duration ctx (st1, w1\<lparr>clock := now\<rparr>))))
              = Suc (calls w0)" using fresh hit by simp
  next
    assume "0 \<le> clock w0 \<and>
       Debounce (counted circuit) duration ctx (Debounce_init, w0) = (x1, st1, w1)"
      and "Add (clock w1) duration \<le> now"
    then show "calls (snd (snd (Debounce (counted circuit) duration ctx (st1, w1\<lparr>clock := now\<rparr>))))
              = Suc (Suc (calls w0))" using fresh miss by simp
  qed
qed

text \<open>
  A cached failure replayed half a second before the threshold; and a fresh debounce of
  one second over an operation that takes two seconds: a second call at 2.5 s is served
  from the cache, one at 3 s invokes the operation again.
\<close>

theorem Debounce_window_witness:
  "clock \<lparr>clock = 1500000000, calls = 7, pick_done = False\<rparr>
     < threshold \<lparr>threshold = 2000000000, result = ''old'', err = Some (errors_New ''stale'')\<rparr>
   \<and> Debounce (succeeding_after 2000000000) time_Second background
        (\<lparr>threshold = 2000000000, result = ''old'', err = Some (errors_New ''stale'')\<rparr>,
         \<lparr>clock = 1500000000, calls = 7, pick_done = False\<rparr>)
      = ((''old'', Some (errors_New ''stale'')),
         \<lparr>threshold = 2500000000, result = ''old'', err = Some (errors_New ''stale'')\<rparr>,
         \<lparr>clock = 1500000000, calls = 7, pick_done = False\<rparr>)
   \<and> 0 \<le> clock epoch
   \<and> Debounce (counted (succeeding_after 2000000000)) time_Second background (Debounce_init, epoch)
      = ((''pong'', None), \<lparr>threshold = 3000000000, result = ''pong'', err = None\<rparr>,
         \<lparr>clock = 2000000000, calls = 1, pick_done = False\<rparr>)
   \<and> 2500000000 < Add (clock \<lparr>clock = 2000000000, calls = 1, pick_done = False\<rparr>) time_Second
   \<and> calls (snd (snd (Debounce (counted (succeeding_after 2000000000)) time_Second background
        (\<lparr>threshold = 3000000000, result = ''pong'', err = None\<rparr>,
         \<lparr>clock = 2500000000, calls = 1, pick_done = False\<rparr>)))) = 1
   \<and> Add (clock \<lparr>clock = 2000000000, calls = 1, pick_done = False\<rparr>) time_Second \<le> 3000000000
   \<and> calls (snd (snd (Debounce (counted (succeeding_after 2000000000)) time_Second background
        (\<lparr>threshold = 3000000000, result = ''pong'', err = None\<rparr>,
         \<lparr>clock = 3000000000, calls = 1, pick_done = False\<rparr>)))) = 2"
proof -
  have hit: "clock \<lparr>clock = 1500000000, calls = 7, pick_done = False\<rparr>
     < threshold \<lparr>threshold = 2000000000, result = ''old'', err = Some (errors_New ''stale'')\<rparr>"
    by simp
  have start: "0 \<le> clock epoch" by (simp add: epoch_def)
  have first: "Debounce (counted (succeeding_after 2000000000)) time_Second background
        (Debounce_init, epoch)
      = ((''pong'', None), \<lparr>threshold = 3000000000, result = ''pong'', err = None\<rparr>,
         \<lparr>clock = 2000000000, calls = 1, pick_done = False\<rparr>)"
    by code_simp
  have early: "2500000000 < Add (clock \<lparr>clock = 2000000000, calls = 1, pick_done = False\<rparr>) time_Second"
    by (simp add: Add_def time_Second_def)
  have late: "Add (clock \<lparr>clock = 2000000000, calls = 1, pick_done = False\<rparr>) time_Second \<le> 3000000000"
    by (simp add: Add_def time_Second_def)
  note inst = Debounce_window
         [where w = "\<lparr>clock = 1500000000, calls = 7, pick_done = False\<rparr>"
            and st = "\<lparr>threshold = 2000000000, result = ''old'', err = Some (errors_New ''stale'')\<rparr>"
            and circuit = "succeeding_after 2000000000" and duration = time_Second
            and ctx = background and ?w0.0 = epoch and ?x1.0 = "(''pong'', None)"
            and ?st1.0 = "\<lparr>threshold = 3000000000, result = ''pong'', err = None\<rparr>"
            and ?w1.0 = "\<lparr>clock = 2000000000, calls = 1, pick_done = False\<rparr>"]
  note two = inst [THEN conjunct2, THEN mp, OF conjI [OF start first], THEN conjunct2]
  have cached: "Debounce (succeeding_after 2000000000) time_Second background
        (\<lparr>threshold = 2000000000, result = ''old'', err = Some (errors_New ''stale'')\<rparr>,
         \<lparr>clock = 1500000000, calls = 7, pick_done = False\<rparr>)
      = ((''old'', Some (errors_New ''stale'')),
         \<lparr>threshold = 2500000000, result = ''old'', err = Some (errors_New ''stale'')\<rparr>,
         \<lparr>clock = 1500000000, calls = 7, pick_done = False\<rparr>)"
    using inst [THEN conjunct1, THEN mp, OF hit] by (simp add: Add_def time_Second_def)
  have once: "calls (snd (snd (Debounce (counted (succeeding_after 2000000000)) time_Second background
        (\<lparr>threshold = 3000000000, result = ''pong'', err = None\<rparr>,
         \<lparr>clock = 2500000000, calls = 1, pick_done = False\<rparr>)))) = 1"
    using two [of 2500000000, THEN conjunct1, THEN mp, OF early] by (simp add: epoch_def)
  have twice: "calls (snd (snd (Debounce (counted (succeeding_after 2000000000)) time_Second background
        (\<lparr>threshold = 3000000000, result = ''pong'', err = None\<rparr>,
         \<lparr>clock = 3000000000, calls = 1, pick_done = False\<rparr>)))) = 2"
    using two [of 3000000000, THEN conjunct2, THEN mp, OF late] by (simp add: epoch_def)
  from hit cached start first early once late twice show ?thesis by blast
qed

subsection \<open>C6: what the cache path returns\<close>

text \<open>
  C6 says that the cache path returns the cached result with a nil error even when the
  call that filled the cache had failed. It does not: a fresh debounce of one second over
  an operation that fails caches the failure, and a call 5 ns later, before the
  threshold, returns the cached result together with the cached error.
\<close>

theorem Debounce_cache_nil_error_counterexample:
  "failing_after 0 background epoch = ((''partial'', Some (errors_New ''down'')), epoch)
   \<and> Debounce (failing_after 0) time_Second background (Debounce_init, epoch)
      = ((''partial'', None),
         \<lparr>threshold = 1000000000, result = ''partial'', err = Some (errors_New ''down'')\<rparr>,
         epoch)
   \<and> Before (clock \<lparr>clock = 5, calls = 0, pick_done = False\<rparr>)
        (threshold \<lparr>threshold = 1000000000, result = ''partial'',
                    err = Some (errors_New ''down'')\<rparr>)
   \<and> Debounce (failing_after 0) time_Second background
        (\<lparr>threshold = 1000000000, result = ''partial'', err = Some (errors_New ''down'')\<rparr>,
         \<lparr>clock = 5, calls = 0, pick_done = False\<rparr>)
      = ((''partial'', Some (errors_New ''down'')),
         \<lparr>threshold = 1000000005, result = ''partial'', err = Some (errors_New ''down'')\<rparr>,
         \<lparr>clock = 5, calls = 0, pick_done = False\<rparr>)"
  by (simp add: failing_after_def epoch_def Debounce_def Debounce_init_def Before_def Add_def
        time_Second_def)

text \<open>
  C6 as amended: when a call has invoked the wrapped operation, which returned the pair
  \<open>(r, e)\<close>, a later call made before the threshold that call set returns \<open>(r, e)\<close>:
  the cached result with the cached error, which is nil only when \<open>e\<close> is.
\<close>

theorem Debounce_cache_replays_error:
  assumes "threshold st \<le> clock w" and "circuit ctx w = ((r, e), w')"
    and "Debounce circuit duration ctx (st, w) = (x1, st1, w1)"
    and "clock w2 < threshold st1"
  shows "fst (Debounce circuit duration ctx (st1, w2)) = (r, e)"
proof -
  from assms Debounce_fresh [of st w circuit ctx r e w' duration]
  have "result st1 = r" "err st1 = e" by auto
  with Debounce_cached [OF assms(4), of circuit duration ctx] show ?thesis by simp
qed

text \<open>The same two calls as in the counterexample.\<close>

theorem Debounce_cache_replays_error_witness:
  "threshold Debounce_init \<le> clock epoch
   \<and> failing_after 0 background epoch = ((''partial'', Some (errors_New ''down'')), epoch)
   \<and> Debounce (failing_after 0) time_Second background (Debounce_init, epoch)
      = ((''partial'', None),
         \<lparr>threshold = 1000000000, result = ''partial'', err = Some (errors_New ''down'')\<rparr>,
         epoch)
   \<and> clock \<lparr>clock = 5, calls = 0, pick_done = False\<rparr>
        < threshold \<lparr>threshold = 1000000000, result = ''partial'',
                     err = Some (errors_New ''down'')\<rparr>
   \<and> fst (Debounce (failing_after 0) time_Second background
        (\<lparr>threshold = 1000000000, result = ''partial'', err = Some (errors_New ''down'')\<rparr>,
         \<lparr>clock = 5, calls = 0, pick_done = False\<rparr>))
      = (''partial'', Some (errors_New ''down''))"
proof -
  have a: "threshold Debounce_init \<le> clock epoch"
    by (simp add: Debounce_init_def epoch_def)
  have b: "failing_after 0 background epoch = ((''partial'', Some (errors_New ''down'')), epoch)"
    by (simp add: failing_after_def epoch_def)
  have c: "Debounce (failing_after 0) time_Second background (Debounce_init, epoch)
      = ((''partial'', None),
         \<lparr>threshold = 1000000000, result = ''partial'', err = Some (errors_New ''down'')\<rparr>,
         epoch)"
    by (simp add: failing_after_def epoch_def Debounce_def Debounce_init_def Before_def Add_def
          time_Second_def)
  have d: "clock \<lparr>clock = 5, calls = 0, pick_done = False\<rparr>
        < threshold \<lparr>threshold = 1000000000, result = ''partial'',
                     err = Some (errors_New ''down'')\<rparr>"
    by simp
  from a b c d Debounce_cache_replays_error [OF a b c d] show ?thesis by blast
qed

subsection \<open>C7: the error of an invoked operation\<close>

text \<open>
  C7 says that breaker and debounce return the error of the wrapped operation as it is
  whenever they invoke it. The breaker does (lemma \<open>Breaker_propagates_error\<close> below).
  The debounce stores the error and returns nil: over an operation that fails with
  "down", the first call of a fresh debounce invokes the operation once and returns a nil
  error, where the breaker over the same operation returns "down".
\<close>

theorem Debounce_fresh_error_dropped:
  "failing_after 0 background epoch = ((''partial'', Some (errors_New ''down'')), epoch)
   \<and> Debounce (counted (failing_after 0)) time_Second background (Debounce_init, epoch)
      = ((''partial'', None),
         \<lparr>threshold = 1000000000, result = ''partial'', err = Some (errors_New ''down'')\<rparr>,
         \<lparr>clock = 0, calls = 1, pick_done = False\<rparr>)
   \<and> Breaker (counted (failing_after 0)) 1 background (Breaker_init epoch, epoch)
      = ((''partial'', Some (errors_New ''down'')),
         \<lparr>consecutiveFailures = 1, lastAttempt = 0\<rparr>,
         \<lparr>clock = 0, calls = 1, pick_done = False\<rparr>)"
proof (intro conjI)
  show "failing_after 0 background epoch = ((''partial'', Some (errors_New ''down'')), epoch)"
    by (simp add: failing_after_def epoch_def)
  show "Debounce (counted (failing_after 0)) time_Second background (Debounce_init, epoch)
      = ((''partial'', None),
         \<lparr>threshold = 1000000000, result = ''partial'', err = Some (errors_New ''down'')\<rparr>,
         \<lparr>clock = 0, calls = 1, pick_done = False\<rparr>)"
    by code_simp
  show "Breaker (counted (failing_after 0)) 1 background (Breaker_init epoch, epoch)
      = ((''partial'', Some (errors_New ''down'')),
         \<lparr>consecutiveFailures = 1, lastAttempt = 0\<rparr>,
         \<lparr>clock = 0, calls = 1, pick_done = False\<rparr>)"
    by code_simp
qed

text \<open>
  The breaker's half of C7: a call that invoked the operation returns exactly the pair
  the operation returned.
\<close>

lemma Breaker_propagates_error:
  assumes "Breaker (counted circuit) t ctx (st, w) = ((x, e), st', w')"
    and "calls w' = Suc (calls w)"
  shows "counted circuit ctx w = ((x, e), w')"
  using Breaker_counted_cases [OF assms(1)] assms(2) by auto

subsection \<open>C8: cancellation during the delay\<close>

text \<open>
  C8: in any iteration of the loop, let the attempt fail with retries left, and let the
  context become done at an instant \<open>c\<close> during the delay that follows: not before the
  attempt ended and before the delay is over. Then the call returns the empty string and
  the context's error, at the instant \<open>c\<close>, and the effector has been invoked once in
  this iteration and never after. A call of the decorated operation is the loop started
  at \<open>r = 0\<close>.
\<close>

theorem Retry_cancelled_during_delay:
  assumes "effector ctx w = ((resp, Some e), w')" and "r < retries"
    and "done_at ctx = Some c" and "clock w' \<le> c" and "c < clock w' + sint delay"
  shows "Retry_loop (counted effector) retries delay ctx r w
           = (('''', Some (ctx_Err ctx)), w'\<lparr>calls := Suc (calls w), clock := c\<rparr>)"
proof -
  have c: "counted effector ctx w = ((resp, Some e), w'\<lparr>calls := Suc (calls w)\<rparr>)"
    using assms(1) by (simp add: counted_def)
  have "0 < sint delay" using assms(4,5) by simp
  then have "select_wait delay ctx (w'\<lparr>calls := Suc (calls w)\<rparr>)
          = (Some (ctx_Err ctx), w'\<lparr>calls := Suc (calls w), clock := c\<rparr>)"
    using assms(3-5) by (simp add: select_wait_def Let_def max_def)
  with Retry_loop_step
         [of "counted effector" ctx w resp "Some e" "w'\<lparr>calls := Suc (calls w)\<rparr>"
             retries delay r, OF c]
       assms(2)
  show ?thesis by simp
qed

text \<open>
  Three retries, a delay of 100 ns, attempts that take 10 ns, a context cancelled at
  150 ns: the first delay runs out at 110, the second attempt ends at 120, and the call
  is aborted at 150 after two invocations.
\<close>

theorem Retry_cancelled_during_delay_witness:
  "failing_after 10 \<lparr>done_at = Some 150, ctx_Err = context_Canceled\<rparr>
       \<lparr>clock = 110, calls = 1, pick_done = False\<rparr>
     = ((''partial'', Some (errors_New ''down'')), \<lparr>clock = 120, calls = 1, pick_done = False\<rparr>)
   \<and> (1 :: int) < 3
   \<and> done_at \<lparr>done_at = Some 150, ctx_Err = context_Canceled\<rparr> = Some 150
   \<and> clock \<lparr>clock = 120, calls = 1, pick_done = False\<rparr> \<le> 150
   \<and> 150 < clock \<lparr>clock = 120, calls = 1, pick_done = False\<rparr> + sint (100 :: Duration)
   \<and> Retry_loop (counted (failing_after 10)) 3 100
        \<lparr>done_at = Some 150, ctx_Err = context_Canceled\<rparr> 1
        \<lparr>clock = 110, calls = 1, pick_done = False\<rparr>
      = (('''', Some context_Canceled), \<lparr>clock = 150, calls = 2, pick_done = False\<rparr>)
   \<and> Retry (counted (failing_after 10)) 3 100
        \<lparr>done_at = Some 150, ctx_Err = context_Canceled\<rparr> epoch
      = (('''', Some context_Canceled), \<lparr>clock = 150, calls = 2, pick_done = False\<rparr>)"
proof -
  have attempt: "failing_after 10 \<lparr>done_at = Some 150, ctx_Err = context_Canceled\<rparr>
       \<lparr>clock = 110, calls = 1, pick_done = False\<rparr>
     = ((''partial'', Some (errors_New ''down'')), \<lparr>clock = 120, calls = 1, pick_done = False\<rparr>)"
    by (simp add: failing_after_def)
  have left: "(1 :: int) < 3" by simp
  have cancel: "done_at \<lparr>done_at = Some 150, ctx_Err = context_Canceled\<rparr> = Some 150" by simp
  have during: "150 < clock \<lparr>clock = 120, calls = 1, pick_done = False\<rparr> + sint (100 :: Duration)"
    by simp
  have begun: "clock \<lparr>clock = 120, calls = 1, pick_done = False\<rparr> \<le> 150" by simp
  have abort: "Retry_loop (counted (failing_after 10)) 3 100
        \<lparr>done_at = Some 150, ctx_Err = context_Canceled\<rparr> 1
        \<lparr>clock = 110, calls = 1, pick_done = False\<rparr>
      = (('''', Some context_Canceled), \<lparr>clock = 150, calls = 2, pick_done = False\<rparr>)"
    using Retry_cancelled_during_delay
            [where effector = "failing_after 10"
               and ctx = "\<lparr>done_at = Some 150, ctx_Err = context_Canceled\<rparr>"
               and w = "\<lparr>clock = 110, calls = 1, pick_done = False\<rparr>"
               and w' = "\<lparr>clock = 120, calls = 1, pick_done = False\<rparr>"
               and delay = 100,
             OF attempt left cancel begun during]
    by simp
  have run: "Retry (counted (failing_after 10)) 3 100
        \<lparr>done_at = Some 150, ctx_Err = context_Canceled\<rparr> epoch
      = (('''', Some context_Canceled), \<lparr>clock = 150, calls = 2, pick_done = False\<rparr>)"
    by code_simp
  from attempt left cancel begun during abort run show ?thesis by blast
qed

subsection \<open>C9: the gate is active at the threshold itself\<close>

text \<open>
  C9: as soon as \<open>consecutiveFailures\<close> equals \<open>failureThreshold\<close>, a call made no
  later than 2 seconds after \<open>lastAttempt\<close> is rejected. In particular a breaker built
  with threshold 0 at the instant \<open>clock w0\<close> rejects every one of any sequence of calls
  made less than 2 seconds after that instant, and its state and the world (but for the
  clock) stay as they were: the operation is never invoked, and nothing has failed.
\<close>

theorem Breaker_trips_at_threshold:
  "(consecutiveFailures st = t \<and> clock w \<le> lastAttempt st + 2 * 1000000000 \<longrightarrow>
      Breaker circuit t ctx (st, w) = (('''', Some (errors_New ''service unreachable'')), st, w))
   \<and> ((\<forall>now \<in> set nows. now < clock w0 + 2 * 1000000000) \<longrightarrow>
      run_calls (Breaker circuit 0 ctx) nows (Breaker_init w0, w0)
        = (replicate (length nows) ('''', Some (errors_New ''service unreachable'')),
           Breaker_init w0, w0\<lparr>clock := last (clock w0 # nows)\<rparr>))"
proof (intro conjI impI)
  assume "consecutiveFailures st = t \<and> clock w \<le> lastAttempt st + 2 * 1000000000"
  then show "Breaker circuit t ctx (st, w)
               = (('''', Some (errors_New ''service unreachable'')), st, w)"
    using Breaker_gate [of st t 0 w circuit ctx] by simp
next
  assume "\<forall>now \<in> set nows. now < clock w0 + 2 * 1000000000"
  then show "run_calls (Breaker circuit 0 ctx) nows (Breaker_init w0, w0)
        = (replicate (length nows) ('''', Some (errors_New ''service unreachable'')),
           Breaker_init w0, w0\<lparr>clock := last (clock w0 # nows)\<rparr>)"
    unfolding Breaker_init_def by (rule run_calls_Breaker_fresh)
qed

text \<open>
  Three failures at threshold 3, and three calls within 2 seconds of building a breaker
  with threshold 0 over a healthy operation.
\<close>

theorem Breaker_trips_at_threshold_witness:
  "consecutiveFailures \<lparr>consecutiveFailures = 3, lastAttempt = 100\<rparr> = (3 :: go_uint)
   \<and> Breaker (counted (succeeding_after 0)) 3 background
        (\<lparr>consecutiveFailures = 3, lastAttempt = 100\<rparr>,
         \<lparr>clock = 2000000100, calls = 3, pick_done = False\<rparr>)
      = (('''', Some (errors_New ''service unreachable'')),
         \<lparr>consecutiveFailures = 3, lastAttempt = 100\<rparr>,
         \<lparr>clock = 2000000100, calls = 3, pick_done = False\<rparr>)
   \<and> 0 < clock epoch + 2 * 1000000000
   \<and> 1000000000 < clock epoch + 2 * 1000000000
   \<and> 1999999999 < clock epoch + 2 * 1000000000
   \<and> run_calls (Breaker (counted (succeeding_after 0)) 0 background)
        [0, 1000000000, 1999999999] (Breaker_init epoch, epoch)
      = ([('''', Some (errors_New ''service unreachable'')),
          ('''', Some (errors_New ''service unreachable'')),
          ('''', Some (errors_New ''service unreachable''))],
         \<lparr>consecutiveFailures = 0, lastAttempt = 0\<rparr>,
         \<lparr>clock = 1999999999, calls = 0, pick_done = False\<rparr>)"
  using Breaker_trips_at_threshold
          [of "\<lparr>consecutiveFailures = 3, lastAttempt = 100\<rparr>" 3
              "\<lparr>clock = 2000000100, calls = 3, pick_done = False\<rparr>"
              "counted (succeeding_after 0)" background "[0, 1000000000, 1999999999]" epoch]
  by (simp add: epoch_def Breaker_init_def numeral_3_eq_3)

subsection \<open>C10: every call moves the threshold\<close>

text \<open>
  C10: whatever path a call takes, cached or not, the threshold it leaves is the clock at
  its completion plus \<open>duration\<close>. So after any call, a sequence of calls of any
  length in which each call comes before \<open>duration\<close> has elapsed since the call before
  it is served from the cache throughout: each returns the cached pair, and the world
  changes in its clock only, so the wrapped operation is never invoked again.
\<close>

theorem Debounce_window_slides:
  "Debounce circuit duration ctx (st, w) = (x, st1, w1) \<longrightarrow>
     threshold st1 = Add (clock w1) duration
   \<and> (spaced (Add (clock w1) duration) (sint duration) nows \<longrightarrow>
        run_calls (Debounce circuit duration ctx) nows (st1, w1)
          = (replicate (length nows) (result st1, err st1),
             st1\<lparr>threshold := last (threshold st1 # map (\<lambda>now. Add now duration) nows)\<rparr>,
             w1\<lparr>clock := last (clock w1 # nows)\<rparr>))"
proof (intro impI)
  assume call: "Debounce circuit duration ctx (st, w) = (x, st1, w1)"
  have thr: "threshold st1 = Add (clock w1) duration"
  proof (cases "clock w < threshold st")
    case True
    from Debounce_cached [OF True, of circuit duration ctx] call show ?thesis by auto
  next
    case False
    obtain r e v where c: "circuit ctx w = ((r, e), v)" by (metis prod.exhaust)
    from False have "threshold st \<le> clock w" by simp
    with c call Debounce_fresh [of st w circuit ctx r e v duration] show ?thesis by auto
  qed
  show "threshold st1 = Add (clock w1) duration
   \<and> (spaced (Add (clock w1) duration) (sint duration) nows \<longrightarrow>
        run_calls (Debounce circuit duration ctx) nows (st1, w1)
          = (replicate (length nows) (result st1, err st1),
             st1\<lparr>threshold := last (threshold st1 # map (\<lambda>now. Add now duration) nows)\<rparr>,
             w1\<lparr>clock := last (clock w1 # nows)\<rparr>))"
    using thr run_calls_Debounce_spaced [of st1 duration nows circuit ctx w1] by simp
qed

text \<open>
  A debounce of one second over an operation that takes two seconds: after the first
  call, calls at 2.5 s, 3.4 s and 4.3 s are all served from the cache, although the last
  comes 2.3 s after the operation ran.
\<close>

theorem Debounce_window_slides_witness:
  "Debounce (counted (succeeding_after 2000000000)) time_Second background (Debounce_init, epoch)
      = ((''pong'', None), \<lparr>threshold = 3000000000, result = ''pong'', err = None\<rparr>,
         \<lparr>clock = 2000000000, calls = 1, pick_done = False\<rparr>)
   \<and> threshold \<lparr>threshold = 3000000000, result = ''pong'', err = None\<rparr>
        = Add (clock \<lparr>clock = 2000000000, calls = 1, pick_done = False\<rparr>) time_Second
   \<and> spaced (Add (clock \<lparr>clock = 2000000000, calls = 1, pick_done = False\<rparr>) time_Second)
        (sint time_Second) [2500000000, 3400000000, 4300000000]
   \<and> run_calls (Debounce (counted (succeeding_after 2000000000)) time_Second background)
        [2500000000, 3400000000, 4300000000]
        (\<lparr>threshold = 3000000000, result = ''pong'', err = None\<rparr>,
         \<lparr>clock = 2000000000, calls = 1, pick_done = False\<rparr>)
      = ([(''pong'', None), (''pong'', None), (''pong'', None)],
         \<lparr>threshold = 5300000000, result = ''pong'', err = None\<rparr>,
         \<lparr>clock = 4300000000, calls = 1, pick_done = False\<rparr>)"
proof -
  have first: "Debounce (counted (succeeding_after 2000000000)) time_Second background
        (Debounce_init, epoch)
      = ((''pong'', None), \<lparr>threshold = 3000000000, result = ''pong'', err = None\<rparr>,
         \<lparr>clock = 2000000000, calls = 1, pick_done = False\<rparr>)"
    by code_simp
  have sp: "spaced (Add (clock \<lparr>clock = 2000000000, calls = 1, pick_done = False\<rparr>) time_Second)
        (sint time_Second) [2500000000, 3400000000, 4300000000]"
    by (simp add: Add_def time_Second_def)
  note both = Debounce_window_slides [THEN mp, OF first]
  have thr: "threshold \<lparr>threshold = 3000000000, result = ''pong'', err = None\<rparr>
        = Add (clock \<lparr>clock = 2000000000, calls = 1, pick_done = False\<rparr>) time_Second"
    by (rule both [THEN conjunct1])
  have run: "run_calls (Debounce (counted (succeeding_after 2000000000)) time_Second background)
        [2500000000, 3400000000, 4300000000]
        (\<lparr>threshold = 3000000000, result = ''pong'', err = None\<rparr>,
         \<lparr>clock = 2000000000, calls = 1, pick_done = False\<rparr>)
      = ([(''pong'', None), (''pong'', None), (''pong'', None)],
         \<lparr>threshold = 5300000000, result = ''pong'', err = None\<rparr>,
         \<lparr>clock = 4300000000, calls = 1, pick_done = False\<rparr>)"
    using both [THEN conjunct2, THEN mp, OF sp]
    by (simp add: Add_def time_Second_def numeral_3_eq_3)
  from first thr sp run show ?thesis by blast
qed

end
